theory Spec2Isabelle
  imports Complex_Main
begin

section \<open>strategy.py: candles, signals and the stateless strategy\<close>

text \<open>
  Prices are Python floats. The trading logic only ever compares two prices
  (\<^verbatim>\<open>close > open\<close>, \<^verbatim>\<open>close < open\<close>) and copies them; it does no
  arithmetic on them. On finite floats the comparison is the comparison of the
  real numbers they denote, so a price is modelled as a \<^typ>\<open>real\<close>.  Non-finite
  prices are excluded by the specification (section 7, invalid bar data).
\<close>

datatype Signal = BUY | SELL | HOLD

record Candle =
  open_price :: real
  close_price :: real

definition is_green :: "Candle \<Rightarrow> bool" where
  "is_green c = (close_price c > open_price c)"

definition is_red :: "Candle \<Rightarrow> bool" where
  "is_red c = (close_price c < open_price c)"

text \<open>
  \<^verbatim>\<open>PullbackStrategy.generate_signal\<close>.  The class has no attributes and the
  body assigns neither to \<^verbatim>\<open>self\<close> nor to its arguments, so the method is a
  function of its three arguments.  \<^verbatim>\<open>ltf_candles[-1]\<close> and
  \<^verbatim>\<open>ltf_candles[-2]\<close> are read only after the length check, where they
  are in range.
\<close>

definition generate_signal :: "Candle list \<Rightarrow> Candle list \<Rightarrow> bool \<Rightarrow> Signal" where
  "generate_signal ltf_candles htf_candles position_open =
    (if length ltf_candles < 2 \<or> length htf_candles < 1 then HOLD
     else
       let current_ltf = last ltf_candles;
           previous_ltf = ltf_candles ! (length ltf_candles - 2);
           current_htf = last htf_candles
       in if \<not> is_green current_htf then HOLD
          else if \<not> position_open \<and> is_red previous_ltf \<and> is_green current_ltf then BUY
          else if position_open \<and> is_red current_ltf then SELL
          else HOLD)"

section \<open>Trade records and the state shared by both drivers\<close>

text \<open>
  A timestamp is the opening minute of a one-minute bar, counted from an origin
  that lies on a full hour; \<^verbatim>\<open>ts.minute\<close> is then the count modulo 60.
\<close>

type_synonym timestamp = nat


text \<open>
  \<^verbatim>\<open>current_trade\<close> is a dict with six keys while the position is open; the
  exit adds four keys and the completed dict goes to the trade log.
\<close>

record open_trade =
  symbol :: string
  direction :: string
  entry_time :: timestamp
  entry_price :: real
  entry_candle :: nat
  entry_htf :: nat

record trade_record = open_trade +
  exit_time :: timestamp
  exit_price :: real
  exit_candle :: nat
  exit_htf :: nat

text \<open>\<^verbatim>\<open>current_trade.update({exit_time, exit_price, exit_candle, exit_htf})\<close>\<close>

definition update_exit :: "open_trade \<Rightarrow> timestamp \<Rightarrow> real \<Rightarrow> nat \<Rightarrow> nat \<Rightarrow> trade_record" where
  "update_exit tr ts price cc hc =
     \<lparr>symbol = symbol tr, direction = direction tr, entry_time = entry_time tr,
      entry_price = entry_price tr, entry_candle = entry_candle tr, entry_htf = entry_htf tr,
      exit_time = ts, exit_price = price, exit_candle = cc, exit_htf = hc\<rparr>"

text \<open>
  The attributes that \<^verbatim>\<open>PullbackBacktestAdapter.init\<close> and
  \<^verbatim>\<open>LiveTrader.__init__\<close> both create, under the same names (the leading
  underscore of \<^verbatim>\<open>_htf_bucket\<close>, \<^verbatim>\<open>_htf_pending\<close> and
  \<^verbatim>\<open>_htf_available_next\<close> is dropped).
\<close>

record trader =
  ltf_candles :: "Candle list"
  htf_candles :: "Candle list"
  htf_bucket :: "Candle list"
  htf_pending :: "Candle option"
  htf_available_next :: bool
  current_trade :: "open_trade option"
  candle_count :: nat
  htf_count :: nat

text \<open>What one tick did: the branch of the order-execution block that ran.\<close>

datatype action =
    Waiting       \<comment> \<open>minimum data not reached: no signal generated\<close>
  | Skipped       \<comment> \<open>live only: fetch failed, duplicate bar, or not yet aligned\<close>
  | NoOrder       \<comment> \<open>signal HOLD\<close>
  | Entry         \<comment> \<open>BUY while flat: position opened\<close>
  | Exit          \<comment> \<open>SELL while open: position closed, trade logged\<close>
  | BuyIgnored    \<comment> \<open>BUY while a position is open\<close>
  | SellIgnored   \<comment> \<open>SELL while flat\<close>
  | OrderFailed   \<comment> \<open>live only: the order call raised\<close>

type_synonym report = "Signal option \<times> action"

section \<open>backtest.py: the replay adapter\<close>

record backtest = trader +
  trades_log :: "trade_record list"

definition bt_init :: backtest where
  "bt_init =
     \<lparr>ltf_candles = [], htf_candles = [], htf_bucket = [], htf_pending = None,
      htf_available_next = False, current_trade = None, candle_count = 0, htf_count = 0,
      trades_log = []\<rparr>"

text \<open>Lines 61-66 of \<^verbatim>\<open>next\<close>: make the pending HTF candle available.\<close>

definition bt_promote :: "backtest \<Rightarrow> backtest" where
  "bt_promote self =
     (case htf_pending self of
        Some pending \<Rightarrow>
          if htf_available_next self
          then self\<lparr>htf_candles := htf_candles self @ [pending],
                    htf_count := htf_count self + 1,
                    htf_pending := None,
                    htf_available_next := False\<rparr>
          else self
      | None \<Rightarrow> self)"

text \<open>Lines 76-88 of \<^verbatim>\<open>next\<close>: aggregate the LTF candle into the HTF bucket.\<close>

definition bt_aggregate :: "Candle \<Rightarrow> backtest \<Rightarrow> backtest" where
  "bt_aggregate ltf_candle self =
     (let bucket = htf_bucket self @ [ltf_candle]
      in if length bucket = 5
         then self\<lparr>htf_pending :=
                      Some \<lparr>open_price = open_price (hd bucket),
                            close_price = close_price (last bucket)\<rparr>,
                   htf_available_next := True,
                   htf_bucket := []\<rparr>
         else self\<lparr>htf_bucket := bucket\<rparr>)"

text \<open>Lines 105-135 of \<^verbatim>\<open>next\<close>: execute the order for a signal.\<close>

definition bt_execute :: "Signal \<Rightarrow> timestamp \<Rightarrow> real \<Rightarrow> backtest \<Rightarrow> action \<times> backtest" where
  "bt_execute signal ts price self =
     (if signal = BUY then
        (case current_trade self of
           Some tr \<Rightarrow> (BuyIgnored, self)
         | None \<Rightarrow>
             (Entry,
              self\<lparr>current_trade :=
                     Some \<lparr>symbol = ''BTCUSDT'', direction = ''LONG'', entry_time = ts,
                           entry_price = price, entry_candle = candle_count self,
                           entry_htf = htf_count self\<rparr>\<rparr>))
      else if signal = SELL then
        (case current_trade self of
           None \<Rightarrow> (SellIgnored, self)
         | Some tr \<Rightarrow>
             (Exit,
              self\<lparr>trades_log :=
                     trades_log self @
                       [update_exit tr ts price (candle_count self) (htf_count self)],
                   current_trade := None\<rparr>))
      else (NoOrder, self))"

text \<open>
  \<^verbatim>\<open>PullbackBacktestAdapter.next\<close>, called once per closed LTF candle with
  \<^verbatim>\<open>self.data.index[-1]\<close>, \<^verbatim>\<open>self.data.Open[-1]\<close> and
  \<^verbatim>\<open>self.data.Close[-1]\<close>.
\<close>

definition bt_next :: "timestamp \<Rightarrow> real \<Rightarrow> real \<Rightarrow> backtest \<Rightarrow> report \<times> backtest" where
  "bt_next timestamp data_open data_close self0 =
     (let self1 = self0\<lparr>candle_count := candle_count self0 + 1\<rparr>;
          self2 = bt_promote self1;
          ltf_candle = \<lparr>open_price = data_open, close_price = data_close\<rparr>;
          self3 = self2\<lparr>ltf_candles := ltf_candles self2 @ [ltf_candle]\<rparr>;
          self4 = bt_aggregate ltf_candle self3
      in if length (ltf_candles self4) < 2 \<or> length (htf_candles self4) < 1
         then ((None, Waiting), self4)
         else
           let signal = generate_signal (ltf_candles self4) (htf_candles self4)
                          (current_trade self4 \<noteq> None);
               price = data_close;
               (act, self5) = bt_execute signal timestamp price self4
           in ((Some signal, act), self5))"

section \<open>live_trader.py: the polling loop\<close>

text \<open>
  A bar as the live trader writes it to \<^verbatim>\<open>live_candles.csv\<close> and as the
  backtest reads it back: timestamp, open, close.
\<close>

record bar =
  bar_time :: timestamp
  bar_open :: real
  bar_close :: real

record live = trader +
  self_symbol :: string
  alignment_complete :: bool
  last_candle_ts :: "timestamp option"
  trade_rows :: "trade_record list"    \<comment> \<open>rows written to \<^verbatim>\<open>live_trades.csv\<close>\<close>
  candle_rows :: "bar list"            \<comment> \<open>rows written to \<^verbatim>\<open>live_candles.csv\<close>\<close>

definition live_init :: "string \<Rightarrow> live" where
  "live_init smb =
     \<lparr>ltf_candles = [], htf_candles = [], htf_bucket = [], htf_pending = None,
      htf_available_next = False, current_trade = None, candle_count = 0, htf_count = 0,
      self_symbol = smb, alignment_complete = False, last_candle_ts = None,
      trade_rows = [], candle_rows = []\<rparr>"

text \<open>Lines 206-215 of \<^verbatim>\<open>run\<close>: make the pending HTF candle available.\<close>

definition live_promote :: "live \<Rightarrow> live" where
  "live_promote self =
     (case htf_pending self of
        Some pending \<Rightarrow>
          if htf_available_next self
          then self\<lparr>htf_candles := htf_candles self @ [pending],
                    htf_count := htf_count self + 1,
                    htf_pending := None,
                    htf_available_next := False\<rparr>
          else self
      | None \<Rightarrow> self)"

text \<open>Lines 234-246 of \<^verbatim>\<open>run\<close>: aggregate the LTF candle into the HTF bucket.\<close>

definition live_aggregate :: "Candle \<Rightarrow> live \<Rightarrow> live" where
  "live_aggregate candle_ltf self =
     (let bucket = htf_bucket self @ [candle_ltf]
      in if length bucket = 5
         then self\<lparr>htf_pending :=
                      Some \<lparr>open_price = open_price (hd bucket),
                            close_price = close_price (last bucket)\<rparr>,
                   htf_available_next := True,
                   htf_bucket := []\<rparr>
         else self\<lparr>htf_bucket := bucket\<rparr>)"

text \<open>
  Lines 272-320 of \<^verbatim>\<open>run\<close>: execute the order for a signal.
  \<^verbatim>\<open>place_market_buy\<close> and \<^verbatim>\<open>place_market_sell\<close> re-raise the
  exchange's error; the loop's handler catches it, so the statements after the
  call do not run.  \<open>order_ok\<close> says that the order call of this tick returns
  normally.
\<close>

definition live_execute :: "Signal \<Rightarrow> timestamp \<Rightarrow> real \<Rightarrow> bool \<Rightarrow> live \<Rightarrow> action \<times> live" where
  "live_execute signal ts price order_ok self =
     (if signal = BUY \<and> current_trade self = None then
        (if order_ok
         then (Entry,
               self\<lparr>current_trade :=
                      Some \<lparr>symbol = self_symbol self, direction = ''LONG'', entry_time = ts,
                            entry_price = price, entry_candle = candle_count self,
                            entry_htf = htf_count self\<rparr>\<rparr>)
         else (OrderFailed, self))
      else if signal = SELL \<and> current_trade self \<noteq> None then
        (if order_ok
         then (Exit,
               self\<lparr>trade_rows :=
                      trade_rows self @
                        [update_exit (the (current_trade self)) ts price
                           (candle_count self) (htf_count self)],
                    current_trade := None\<rparr>)
         else (OrderFailed, self))
      else if signal = BUY then (BuyIgnored, self)
      else if signal = SELL then (SellIgnored, self)
      else (NoOrder, self))"

text \<open>
  Lines 205-320 of \<^verbatim>\<open>run\<close>: what one loop iteration does with a candle
  that passed the duplicate check and the alignment phase.
\<close>

definition live_process :: "Candle \<Rightarrow> timestamp \<Rightarrow> bool \<Rightarrow> live \<Rightarrow> report \<times> live" where
  "live_process candle_ltf ts order_ok self0 =
     (let self1 = live_promote self0;
          self2 = self1\<lparr>candle_count := candle_count self1 + 1,
                       ltf_candles := ltf_candles self1 @ [candle_ltf],
                       candle_rows := candle_rows self1 @
                         [\<lparr>bar_time = ts, bar_open = open_price candle_ltf,
                           bar_close = close_price candle_ltf\<rparr>]\<rparr>;
          self3 = live_aggregate candle_ltf self2
      in if length (ltf_candles self3) < 2 \<or> length (htf_candles self3) < 1
         then ((None, Waiting), self3)
         else
           let signal = generate_signal (ltf_candles self3) (htf_candles self3)
                          (current_trade self3 \<noteq> None);
               price = close_price candle_ltf;
               (act, self4) = live_execute signal ts price order_ok self3
           in ((Some signal, act), self4))"



section \<open>Driving a trader over a sequence of bars\<close>

text \<open>The driver calls the step once per input, in order, and collects the reports.\<close>

fun drive :: "('i \<Rightarrow> 's \<Rightarrow> report \<times> 's) \<Rightarrow> 'i list \<Rightarrow> 's \<Rightarrow> report list \<times> 's" where
  "drive step [] s = ([], s)"
| "drive step (x # xs) s =
     (case step x s of (r, s1) \<Rightarrow> (case drive step xs s1 of (rs, s2) \<Rightarrow> (r # rs, s2)))"

definition candle_of :: "bar \<Rightarrow> Candle" where
  "candle_of b = \<lparr>open_price = bar_open b, close_price = bar_close b\<rparr>"

text \<open>Bulk replay: \<^verbatim>\<open>next\<close> is called for each row of the data frame.\<close>

definition bt_feed :: "bar list \<Rightarrow> report list \<times> backtest" where
  "bt_feed bars = drive (\<lambda>b. bt_next (bar_time b) (bar_open b) (bar_close b)) bars bt_init"

text \<open>
  Per-tick delivery to the live engine: each bar is processed by one loop
  iteration; the second component says whether the order call of that tick
  returns normally.
\<close>

definition live_ticks :: "string \<Rightarrow> (bar \<times> bool) list \<Rightarrow> report list \<times> live" where
  "live_ticks smb ticks =
     drive (\<lambda>(b, ok). live_process (candle_of b) (bar_time b) ok) ticks (live_init smb)"






section \<open>The aggregator and publication gate of the specification\<close>

text \<open>
  Sections 4.1 and 4.2 of the specification describe one component that both
  drivers are meant to implement: promote the pending HTF bar, then push the
  new LTF bar into the bucket and, on the fifth bar, synthesize an HTF bar and
  hold it as pending.  \<open>gate_tick\<close> follows those words; the two
  drivers are compared with it below (\<open>gate_of_bt_next\<close>,
  \<open>gate_of_live_process\<close>).
\<close>

record gate =
  g_ltf :: "Candle list"
  g_visible :: "Candle list"
  g_bucket :: "Candle list"
  g_pending :: "Candle option"
  g_available :: bool
  g_ticks :: nat
  g_promoted :: nat

definition gate_of :: "'a trader_scheme \<Rightarrow> gate" where
  "gate_of s =
     \<lparr>g_ltf = ltf_candles s, g_visible = htf_candles s, g_bucket = htf_bucket s,
      g_pending = htf_pending s, g_available = htf_available_next s,
      g_ticks = candle_count s, g_promoted = htf_count s\<rparr>"

definition gate_init :: gate where
  "gate_init =
     \<lparr>g_ltf = [], g_visible = [], g_bucket = [], g_pending = None, g_available = False,
      g_ticks = 0, g_promoted = 0\<rparr>"

definition gate_tick :: "Candle \<Rightarrow> gate \<Rightarrow> gate" where
  "gate_tick c g =
     (let g1 = (case g_pending g of
                  Some p \<Rightarrow>
                    if g_available g
                    then g\<lparr>g_visible := g_visible g @ [p], g_promoted := g_promoted g + 1,
                           g_pending := None, g_available := False\<rparr>
                    else g
                | None \<Rightarrow> g);
          g2 = g1\<lparr>g_ticks := g_ticks g1 + 1, g_ltf := g_ltf g1 @ [c]\<rparr>;
          bucket = g_bucket g2 @ [c]
      in if length bucket = 5
         then g2\<lparr>g_pending := Some \<lparr>open_price = open_price (hd bucket),
                                     close_price = close_price (last bucket)\<rparr>,
                 g_available := True, g_bucket := []\<rparr>
         else g2\<lparr>g_bucket := bucket\<rparr>)"

definition gate_run :: "bar list \<Rightarrow> gate" where
  "gate_run bars = foldl (\<lambda>g b. gate_tick (candle_of b) g) gate_init bars"

text \<open>
  The n-th HTF bar of an LTF sequence, in the words of the specification: the
  open of the bar at position 5n and the close of the bar at position 5n+4.
\<close>

definition htf_bar :: "bar list \<Rightarrow> nat \<Rightarrow> Candle" where
  "htf_bar bars n =
     \<lparr>open_price = bar_open (bars ! (5 * n)), close_price = bar_close (bars ! (5 * n + 4))\<rparr>"

text \<open>
  The state of the gate after a whole sequence, in closed form.
\<close>

definition gate_closed :: "bar list \<Rightarrow> gate" where
  "gate_closed bars =
     \<lparr>g_ltf = map candle_of bars,
      g_visible = map (htf_bar bars) [0..<(length bars - 1) div 5],
      g_bucket = map candle_of (drop (5 * (length bars div 5)) bars),
      g_pending = (if 0 < length bars \<and> length bars mod 5 = 0
                   then Some (htf_bar bars (length bars div 5 - 1)) else None),
      g_available = (0 < length bars \<and> length bars mod 5 = 0),
      g_ticks = length bars,
      g_promoted = (length bars - 1) div 5\<rparr>"

text \<open>
  The trader once tick \<open>t\<close> (0-indexed) has been processed.  The visible
  HTF history does not change between the promotion at the start of a tick and
  the end of that tick, so \<open>htf_candles\<close> of this state is also
  the history that \<^verbatim>\<open>generate_signal\<close> saw on tick \<open>t\<close>.
\<close>

definition bt_at :: "bar list \<Rightarrow> nat \<Rightarrow> backtest" where
  "bt_at bars t = snd (bt_feed (take (Suc t) bars))"

definition live_at :: "string \<Rightarrow> (bar \<times> bool) list \<Rightarrow> nat \<Rightarrow> live" where
  "live_at smb ticks t = snd (live_ticks smb (take (Suc t) ticks))"

text \<open>
  Every HTF bar synthesized so far: the visible ones, then the pending one.
\<close>

definition htf_synthesized :: "'a trader_scheme \<Rightarrow> Candle list" where
  "htf_synthesized self =
     htf_candles self @ (case htf_pending self of None \<Rightarrow> [] | Some htf_candle \<Rightarrow> [htf_candle])"




section \<open>Relating the live trader to the replay\<close>




text \<open>
  The two attributes of the live trader that only its loop reads.
\<close>

definition set_gates :: "bool \<Rightarrow> timestamp option \<Rightarrow> live \<Rightarrow> live" where
  "set_gates g a l = l\<lparr>alignment_complete := g, last_candle_ts := a\<rparr>"

section \<open>Sample data\<close>

definition red_bar :: Candle where
  "red_bar = \<lparr>open_price = 2, close_price = 1\<rparr>"

definition green_bar :: Candle where
  "green_bar = \<lparr>open_price = 1, close_price = 2\<rparr>"

definition flat_bar :: Candle where
  "flat_bar = \<lparr>open_price = 1, close_price = 1\<rparr>"

definition sample_trade :: open_trade where
  "sample_trade =
     \<lparr>symbol = ''BTCUSDT'', direction = ''LONG'', entry_time = 7, entry_price = 2,
      entry_candle = 8, entry_htf = 1\<rparr>"

definition sample_bars :: "bar list" where
  "sample_bars =
     [\<lparr>bar_time = 5, bar_open = 1, bar_close = 2\<rparr>,
      \<lparr>bar_time = 6, bar_open = 2, bar_close = 3\<rparr>,
      \<lparr>bar_time = 7, bar_open = 3, bar_close = 4\<rparr>,
      \<lparr>bar_time = 8, bar_open = 4, bar_close = 6\<rparr>,
      \<lparr>bar_time = 9, bar_open = 6, bar_close = 5\<rparr>,
      \<lparr>bar_time = 10, bar_open = 5, bar_close = 7\<rparr>,
      \<lparr>bar_time = 11, bar_open = 7, bar_close = 6\<rparr>]"

definition sample_ticks :: "(bar \<times> bool) list" where
  "sample_ticks = map (\<lambda>b. (b, bar_time b \<noteq> 10)) sample_bars"

definition sample_backtest :: backtest where
  "sample_backtest =
     \<lparr>ltf_candles = [green_bar, red_bar], htf_candles = [green_bar], htf_bucket = [red_bar],
      htf_pending = None, htf_available_next = False, current_trade = None,
      candle_count = 7, htf_count = 1, trades_log = []\<rparr>"

definition sample_live :: live where
  "sample_live =
     \<lparr>ltf_candles = [green_bar, red_bar], htf_candles = [], htf_bucket = [],
      htf_pending = Some green_bar, htf_available_next = True, current_trade = None,
      candle_count = 40, htf_count = 0, self_symbol = ''ETHUSDT'',
      alignment_complete = True, last_candle_ts = Some 3,
      trade_rows = [], candle_rows = []\<rparr>"


section \<open>Properties of the strategy\<close>

lemma generate_signal_BUY_flat: "generate_signal ltf htf p = BUY \<Longrightarrow> \<not> p"
  by (simp add: generate_signal_def Let_def split: if_splits)

lemma generate_signal_SELL_open: "generate_signal ltf htf p = SELL \<Longrightarrow> p"
  by (simp add: generate_signal_def Let_def split: if_splits)

text \<open>
  C7.  With fewer than 2 LTF candles, or with no visible HTF candle,
  \<^verbatim>\<open>generate_signal\<close> returns HOLD whatever the position state.
\<close>

theorem minimum_data_hold:
  assumes "length ltf < 2 \<or> length htf < 1"
  shows "generate_signal ltf htf position_open = HOLD"
  using assms by (simp add: generate_signal_def)

theorem minimum_data_hold_witness:
  "generate_signal [\<lparr>open_price = 2, close_price = 1\<rparr>] [\<lparr>open_price = 1, close_price = 2\<rparr>] False = HOLD
   \<and> generate_signal [\<lparr>open_price = 2, close_price = 1\<rparr>, \<lparr>open_price = 1, close_price = 2\<rparr>] [] True = HOLD"
proof -
  have a: "length [\<lparr>open_price = 2::real, close_price = 1\<rparr>] < 2 \<or> length [\<lparr>open_price = 1::real, close_price = 2\<rparr>] < 1"
    by simp
  have b: "length [\<lparr>open_price = 2::real, close_price = 1\<rparr>, \<lparr>open_price = 1, close_price = 2\<rparr>] < 2
           \<or> length ([] :: Candle list) < 1"
    by simp
  show ?thesis
    using minimum_data_hold [OF a, of False] minimum_data_hold [OF b, of True] by simp
qed

text \<open>
  C4.  Whenever the visible HTF history is non-empty and its last candle is not
  bullish (close \<open>\<le>\<close> open), \<^verbatim>\<open>generate_signal\<close> returns HOLD,
  for every LTF history and every position state: no BUY, and no SELL while a
  position is open.
\<close>

theorem htf_gate_hold:
  assumes "htf \<noteq> []" and "close_price (last htf) \<le> open_price (last htf)"
  shows "generate_signal ltf htf position_open = HOLD"
  using assms by (simp add: generate_signal_def is_green_def Let_def)

theorem htf_gate_hold_witness:
  "generate_signal [red_bar, green_bar] [green_bar, red_bar] False = HOLD \<and>
   generate_signal [green_bar, red_bar] [green_bar, flat_bar] True = HOLD"
proof -
  have a: "[green_bar, red_bar] \<noteq> []" and b: "[green_bar, flat_bar] \<noteq> []"
    by simp_all
  have c: "close_price (last [green_bar, red_bar]) \<le> open_price (last [green_bar, red_bar])"
    by (simp add: red_bar_def)
  have d: "close_price (last [green_bar, flat_bar]) \<le> open_price (last [green_bar, flat_bar])"
    by (simp add: flat_bar_def)
  show ?thesis
    using htf_gate_hold [OF a c, of "[red_bar, green_bar]" False]
      htf_gate_hold [OF b d, of "[green_bar, red_bar]" True]
    by simp
qed

text \<open>
  C5.  With no position open, at least 2 LTF candles, at least 1 visible HTF
  candle and the latest visible HTF candle bullish, the signal is BUY exactly
  when the second-to-last LTF candle is bearish and the last one is bullish.
\<close>

theorem entry_iff_pullback:
  assumes "2 \<le> length ltf" and "1 \<le> length htf"
    and "open_price (last htf) < close_price (last htf)"
  shows "generate_signal ltf htf False = BUY \<longleftrightarrow>
         close_price (ltf ! (length ltf - 2)) < open_price (ltf ! (length ltf - 2)) \<and>
         open_price (last ltf) < close_price (last ltf)"
  using assms by (cases htf) (auto simp add: generate_signal_def is_green_def is_red_def Let_def)

theorem entry_iff_pullback_witness:
  "generate_signal [green_bar, red_bar, green_bar] [green_bar] False = BUY \<and>
   generate_signal [green_bar, green_bar] [green_bar] False \<noteq> BUY"
proof -
  have a: "2 \<le> length [green_bar, red_bar, green_bar]" and a': "2 \<le> length [green_bar, green_bar]"
    and b: "1 \<le> length [green_bar]"
    by simp_all
  have c: "open_price (last [green_bar]) < close_price (last [green_bar])"
    by (simp add: green_bar_def)
  show ?thesis
    using entry_iff_pullback [OF a b c] entry_iff_pullback [OF a' b c]
    by (simp add: green_bar_def red_bar_def)
qed

text \<open>
  C6.  With a position open, at least 2 LTF candles, at least 1 visible HTF
  candle and the latest visible HTF candle bullish, the signal is SELL exactly
  when the last LTF candle is bearish.
\<close>

theorem exit_iff_red:
  assumes "2 \<le> length ltf" and "1 \<le> length htf"
    and "open_price (last htf) < close_price (last htf)"
  shows "generate_signal ltf htf True = SELL \<longleftrightarrow>
         close_price (last ltf) < open_price (last ltf)"
  using assms by (cases htf) (auto simp add: generate_signal_def is_green_def is_red_def Let_def)

theorem exit_iff_red_witness:
  "generate_signal [green_bar, red_bar] [green_bar] True = SELL \<and>
   generate_signal [red_bar, flat_bar] [green_bar] True \<noteq> SELL"
proof -
  have a: "2 \<le> length [green_bar, red_bar]" and a': "2 \<le> length [red_bar, flat_bar]"
    and b: "1 \<le> length [green_bar]"
    by simp_all
  have c: "open_price (last [green_bar]) < close_price (last [green_bar])"
    by (simp add: green_bar_def)
  show ?thesis
    using exit_iff_red [OF a b c] exit_iff_red [OF a' b c]
    by (simp add: flat_bar_def red_bar_def)
qed

section \<open>Properties of one tick\<close>











lemma bt_next_never_ignored:
  "snd (fst (bt_next ts po pc self)) \<noteq> BuyIgnored \<and> snd (fst (bt_next ts po pc self)) \<noteq> SellIgnored"
  by (auto simp add: bt_next_def Let_def bt_execute_def split: prod.splits option.splits if_splits
      dest: generate_signal_BUY_flat generate_signal_SELL_open)

lemma live_process_never_ignored:
  "snd (fst (live_process c ts ok self)) \<noteq> BuyIgnored \<and> snd (fst (live_process c ts ok self)) \<noteq> SellIgnored"
  by (auto simp add: live_process_def Let_def live_execute_def split: prod.splits option.splits if_splits
      dest: generate_signal_BUY_flat generate_signal_SELL_open)

text \<open>
  C8.  In both drivers, executing BUY while a position is open, or SELL while
  flat, returns the trader unchanged (position state, trade log and every other
  attribute) and reports the signal as ignored; in the live trader no order
  call is made, so nothing can raise.
\<close>

theorem noop_leaves_state:
  "(current_trade bself \<noteq> None \<longrightarrow> bt_execute BUY ts price bself = (BuyIgnored, bself)) \<and>
   (current_trade bself = None \<longrightarrow> bt_execute SELL ts price bself = (SellIgnored, bself)) \<and>
   (current_trade lself \<noteq> None \<longrightarrow> live_execute BUY ts price order_ok lself = (BuyIgnored, lself)) \<and>
   (current_trade lself = None \<longrightarrow> live_execute SELL ts price order_ok lself = (SellIgnored, lself))"
  by (auto simp add: bt_execute_def live_execute_def split: option.splits)

theorem noop_leaves_state_witness:
  "bt_execute BUY 9 3 (bt_init\<lparr>current_trade := Some sample_trade\<rparr>) =
     (BuyIgnored, bt_init\<lparr>current_trade := Some sample_trade\<rparr>) \<and>
   bt_execute SELL 9 3 bt_init = (SellIgnored, bt_init) \<and>
   live_execute BUY 9 3 False ((live_init ''ETHUSDT'')\<lparr>current_trade := Some sample_trade\<rparr>) =
     (BuyIgnored, (live_init ''ETHUSDT'')\<lparr>current_trade := Some sample_trade\<rparr>) \<and>
   live_execute SELL 9 3 True (live_init ''ETHUSDT'') = (SellIgnored, live_init ''ETHUSDT'')"
proof -
  have a: "current_trade (bt_init\<lparr>current_trade := Some sample_trade\<rparr>) \<noteq> None"
    and b: "current_trade bt_init = None"
    and c: "current_trade ((live_init ''ETHUSDT'')\<lparr>current_trade := Some sample_trade\<rparr>) \<noteq> None"
    and d: "current_trade (live_init ''ETHUSDT'') = None"
    by (simp_all add: bt_init_def live_init_def)
  from noop_leaves_state [of "bt_init\<lparr>current_trade := Some sample_trade\<rparr>" 9 3 lself False] a
  have 1: "bt_execute BUY 9 3 (bt_init\<lparr>current_trade := Some sample_trade\<rparr>) =
     (BuyIgnored, bt_init\<lparr>current_trade := Some sample_trade\<rparr>)" by blast
  from noop_leaves_state [of bt_init 9 3 lself False] b
  have 2: "bt_execute SELL 9 3 bt_init = (SellIgnored, bt_init)" by blast
  from noop_leaves_state [of bself 9 3 "(live_init ''ETHUSDT'')\<lparr>current_trade := Some sample_trade\<rparr>" False] c
  have 3: "live_execute BUY 9 3 False ((live_init ''ETHUSDT'')\<lparr>current_trade := Some sample_trade\<rparr>) =
     (BuyIgnored, (live_init ''ETHUSDT'')\<lparr>current_trade := Some sample_trade\<rparr>)" by blast
  from noop_leaves_state [of bself 9 3 "live_init ''ETHUSDT''" True] d
  have 4: "live_execute SELL 9 3 True (live_init ''ETHUSDT'') = (SellIgnored, live_init ''ETHUSDT'')" by blast
  from 1 2 3 4 show ?thesis by blast
qed



text \<open>
  C10.  \<^verbatim>\<open>generate_signal\<close> returns BUY only with
  \<open>position_open\<close> false and SELL only with it true.  Both drivers
  pass their own position state, so no tick of either driver ever takes the
  branch that ignores a BUY while open or a SELL while flat.
\<close>

theorem signal_agrees_with_position:
  "(generate_signal ltf htf position_open = BUY \<longrightarrow> \<not> position_open) \<and>
   (generate_signal ltf htf position_open = SELL \<longrightarrow> position_open) \<and>
   snd (fst (bt_next ts po pc bself)) \<noteq> BuyIgnored \<and>
   snd (fst (bt_next ts po pc bself)) \<noteq> SellIgnored \<and>
   snd (fst (live_process c ts' order_ok lself)) \<noteq> BuyIgnored \<and>
   snd (fst (live_process c ts' order_ok lself)) \<noteq> SellIgnored"
  using generate_signal_BUY_flat [of ltf htf position_open]
    generate_signal_SELL_open [of ltf htf position_open]
    bt_next_never_ignored [of ts po pc bself]
    live_process_never_ignored [of c ts' order_ok lself]
  by blast

theorem signal_agrees_with_position_witness:
  "generate_signal [red_bar, green_bar] [green_bar] False = BUY \<and>
   generate_signal [green_bar, red_bar] [green_bar] True = SELL \<and>
   snd (fst (bt_next 10 1 2 sample_backtest)) \<noteq> BuyIgnored \<and>
   snd (fst (live_process green_bar 99 True sample_live)) \<noteq> BuyIgnored"
proof -
  have a: "generate_signal [red_bar, green_bar] [green_bar] False = BUY"
    by (simp add: generate_signal_def is_green_def is_red_def green_bar_def red_bar_def)
  have b: "generate_signal [green_bar, red_bar] [green_bar] True = SELL"
    by (simp add: generate_signal_def is_green_def is_red_def green_bar_def red_bar_def)
  show ?thesis
    using a b
      signal_agrees_with_position [of "[red_bar, green_bar]" "[green_bar]" False 10 1 2
        sample_backtest green_bar 99 True sample_live]
    by simp
qed

section \<open>The drivers implement the gate of the specification\<close>

lemma drive_snoc:
  "drive step (xs @ [x]) s =
     (case drive step xs s of (rs, s1) \<Rightarrow> (case step x s1 of (r, s2) \<Rightarrow> (rs @ [r], s2)))"
  by (induction xs arbitrary: s) (simp_all split: prod.splits)

lemma gate_of_bt_execute: "gate_of (snd (bt_execute sg ts p s)) = gate_of s"
  by (simp add: bt_execute_def gate_of_def split: option.splits)

lemma gate_of_live_execute: "gate_of (snd (live_execute sg ts p ok s)) = gate_of s"
  by (simp add: live_execute_def gate_of_def)

lemma gate_of_bt_next: "gate_of (snd (bt_next ts po pc s)) = gate_tick \<lparr>open_price = po, close_price = pc\<rparr> (gate_of s)"
proof -
  have "gate_of (bt_aggregate \<lparr>open_price = po, close_price = pc\<rparr>
          ((bt_promote (s\<lparr>candle_count := candle_count s + 1\<rparr>))
             \<lparr>ltf_candles := ltf_candles (bt_promote (s\<lparr>candle_count := candle_count s + 1\<rparr>)) @ [\<lparr>open_price = po, close_price = pc\<rparr>]\<rparr>))
        = gate_tick \<lparr>open_price = po, close_price = pc\<rparr> (gate_of s)"
    by (simp add: bt_aggregate_def bt_promote_def gate_tick_def gate_of_def Let_def split: option.splits)
  then show ?thesis
    by (simp add: bt_next_def Let_def gate_of_bt_execute split: prod.splits)
       (metis gate_of_bt_execute snd_conv)
qed

lemma gate_of_live_process:
  "gate_of (snd (live_process c ts ok s)) = gate_tick c (gate_of s)"
proof -
  have "gate_of (live_aggregate c
          ((live_promote s)\<lparr>candle_count := candle_count (live_promote s) + 1,
             ltf_candles := ltf_candles (live_promote s) @ [c],
             candle_rows := candle_rows (live_promote s) @
               [\<lparr>bar_time = ts, bar_open = open_price c, bar_close = close_price c\<rparr>]\<rparr>))
        = gate_tick c (gate_of s)"
    by (simp add: live_aggregate_def live_promote_def gate_tick_def gate_of_def Let_def split: option.splits)
  then show ?thesis
    by (simp add: live_process_def Let_def split: prod.splits)
       (metis gate_of_live_execute snd_conv)
qed

lemma gate_run_snoc: "gate_run (bars @ [b]) = gate_tick (candle_of b) (gate_run bars)"
  by (simp add: gate_run_def)

lemma gate_of_bt_feed: "gate_of (snd (bt_feed bars)) = gate_run bars"
proof (induction bars rule: rev_induct)
  case Nil
  show ?case by (simp add: bt_feed_def gate_run_def gate_of_def gate_init_def bt_init_def)
next
  case (snoc b bars)
  have "snd (bt_feed (bars @ [b])) =
        snd (bt_next (bar_time b) (bar_open b) (bar_close b) (snd (bt_feed bars)))"
    by (simp add: bt_feed_def drive_snoc split: prod.splits)
  then show ?case
    using snoc by (simp add: gate_of_bt_next gate_run_snoc candle_of_def)
qed

lemma gate_of_live_ticks: "gate_of (snd (live_ticks smb ticks)) = gate_run (map fst ticks)"
proof (induction ticks rule: rev_induct)
  case Nil
  show ?case by (simp add: live_ticks_def gate_run_def gate_of_def gate_init_def live_init_def)
next
  case (snoc x ticks)
  have "snd (live_ticks smb (ticks @ [x])) =
        snd (live_process (candle_of (fst x)) (bar_time (fst x)) (snd x) (snd (live_ticks smb ticks)))"
    by (simp add: live_ticks_def drive_snoc split: prod.splits)
  then show ?case
    using snoc by (simp add: gate_of_live_process gate_run_snoc)
qed

lemma htf_bar_snoc: "5 * n + 4 < length bars \<Longrightarrow> htf_bar (bars @ [b]) n = htf_bar bars n"
  by (simp add: htf_bar_def nth_append)

lemma map_htf_bar_snoc:
  "5 * m \<le> length bars \<Longrightarrow> map (htf_bar (bars @ [b])) [0..<m] = map (htf_bar bars) [0..<m]"
  by (rule map_cong) (auto intro!: htf_bar_snoc)

lemma pred_div5_pos: "(k::nat) mod 5 \<noteq> 0 \<Longrightarrow> (k - 1) div 5 = k div 5"
proof -
  assume r: "k mod 5 \<noteq> 0"
  obtain q r where k: "k = 5 * q + Suc r" and "Suc r < 5"
  proof -
    from r obtain r' where "k mod 5 = Suc r'" by (cases "k mod 5") auto
    moreover have "k = 5 * (k div 5) + k mod 5" by simp
    moreover have "k mod 5 < 5" by simp
    ultimately show ?thesis using that [of "k div 5" r'] by simp
  qed
  then show ?thesis by simp
qed

lemma pred_div5_zero: "0 < (k::nat) \<Longrightarrow> k mod 5 = 0 \<Longrightarrow> Suc ((k - 1) div 5) = k div 5"
proof -
  assume "0 < k" "k mod 5 = 0"
  then have "k = 5 * (k div 5)" and "k div 5 \<noteq> 0"
    by auto
  then obtain j where k: "k = 5 * Suc j"
    by (cases "k div 5") auto
  have "k - Suc 0 = 5 * j + 4" using k by simp
  then show ?thesis using k by simp
qed

lemma suc_div5: "(k::nat) mod 5 \<noteq> 4 \<Longrightarrow> Suc k div 5 = k div 5"
  by presburger

lemma suc_div5_full: "(k::nat) mod 5 = 4 \<Longrightarrow> Suc k div 5 = Suc (k div 5)"
  by presburger

lemma suc_mod5: "Suc k mod 5 = 0 \<longleftrightarrow> (k::nat) mod 5 = 4"
  by presburger

lemma full_bucket: "(k::nat) mod 5 = 4 \<Longrightarrow> 5 * (k div 5) + 4 = k"
  by presburger

lemma tick_promote:
  "gate_tick c \<lparr>g_ltf = l, g_visible = v, g_bucket = [], g_pending = Some p,
      g_available = True, g_ticks = t, g_promoted = n\<rparr> =
   \<lparr>g_ltf = l @ [c], g_visible = v @ [p], g_bucket = [c], g_pending = None,
      g_available = False, g_ticks = Suc t, g_promoted = Suc n\<rparr>"
  by (simp add: gate_tick_def)

lemma tick_complete:
  "length bk = 4 \<Longrightarrow>
   gate_tick c \<lparr>g_ltf = l, g_visible = v, g_bucket = bk, g_pending = None,
      g_available = False, g_ticks = t, g_promoted = n\<rparr> =
   \<lparr>g_ltf = l @ [c], g_visible = v, g_bucket = [],
      g_pending = Some \<lparr>open_price = open_price (hd bk), close_price = close_price c\<rparr>,
      g_available = True, g_ticks = Suc t, g_promoted = n\<rparr>"
  by (cases bk) (simp_all add: gate_tick_def)

lemma tick_collect:
  "length bk < 4 \<Longrightarrow>
   gate_tick c \<lparr>g_ltf = l, g_visible = v, g_bucket = bk, g_pending = None,
      g_available = False, g_ticks = t, g_promoted = n\<rparr> =
   \<lparr>g_ltf = l @ [c], g_visible = v, g_bucket = bk @ [c], g_pending = None,
      g_available = False, g_ticks = Suc t, g_promoted = n\<rparr>"
  by (simp add: gate_tick_def)

lemma gate_tick_closed: "gate_tick (candle_of b) (gate_closed bars) = gate_closed (bars @ [b])"
proof -
  define k where "k = length bars"
  define q where "q = k div 5"
  define n where "n = (k - 1) div 5"
  have old: "gate_closed bars =
      \<lparr>g_ltf = map candle_of bars, g_visible = map (htf_bar bars) [0..<n],
       g_bucket = map candle_of (drop (5 * q) bars),
       g_pending = (if 0 < k \<and> k mod 5 = 0 then Some (htf_bar bars (q - 1)) else None),
       g_available = (0 < k \<and> k mod 5 = 0), g_ticks = k, g_promoted = n\<rparr>"
    by (simp only: gate_closed_def k_def q_def n_def)
  have new: "gate_closed (bars @ [b]) =
      \<lparr>g_ltf = map candle_of bars @ [candle_of b],
       g_visible = map (htf_bar (bars @ [b])) [0..<q],
       g_bucket = map candle_of (drop (5 * (Suc k div 5)) (bars @ [b])),
       g_pending = (if Suc k mod 5 = 0 then Some (htf_bar (bars @ [b]) (Suc k div 5 - 1)) else None),
       g_available = (Suc k mod 5 = 0), g_ticks = Suc k, g_promoted = q\<rparr>"
    by (simp add: gate_closed_def k_def q_def del: drop_append)
  have le: "5 * q \<le> length bars"
    by (simp add: q_def k_def)
  have vis: "map (htf_bar (bars @ [b])) [0..<q] = map (htf_bar bars) [0..<q]"
    using le by (rule map_htf_bar_snoc)
  have len_bucket: "length (drop (5 * q) bars) = k mod 5"
    by (simp add: q_def k_def minus_mult_div_eq_mod)
  have bucket_snoc: "map candle_of (drop (5 * q) (bars @ [b])) = map candle_of (drop (5 * q) bars) @ [candle_of b]"
    using le by simp
  consider (promote) "0 < k" "k mod 5 = 0" | (complete) "k mod 5 = 4"
    | (collect) "k = 0 \<or> (k mod 5 \<noteq> 0 \<and> k mod 5 \<noteq> 4)"
    by blast
  then show ?thesis
  proof cases
    case promote
    have qn: "q = Suc n"
      using pred_div5_zero [OF promote] by (simp add: q_def n_def)
    have sd: "Suc k div 5 = q" and sm: "Suc k mod 5 \<noteq> 0"
      using promote(2) by (simp_all add: suc_div5 suc_mod5 q_def)
    have empty: "drop (5 * q) bars = []"
      using len_bucket promote(2) by simp
    have bucket': "map candle_of (drop (5 * q) (bars @ [b])) = [candle_of b]"
      using bucket_snoc empty by simp
    have old': "gate_closed bars =
      \<lparr>g_ltf = map candle_of bars, g_visible = map (htf_bar bars) [0..<n],
       g_bucket = [], g_pending = Some (htf_bar bars n),
       g_available = True, g_ticks = k, g_promoted = n\<rparr>"
      using promote by (simp add: old empty) (simp add: qn)
    have new': "gate_closed (bars @ [b]) =
      \<lparr>g_ltf = map candle_of bars @ [candle_of b],
       g_visible = map (htf_bar bars) [0..<n] @ [htf_bar bars n],
       g_bucket = [candle_of b], g_pending = None,
       g_available = False, g_ticks = Suc k, g_promoted = Suc n\<rparr>"
      using sm by (simp add: new vis sd bucket' del: drop_append) (simp add: qn)
    show ?thesis
      by (simp only: old' new' tick_promote)
  next
    case complete
    have qn: "n = q"
      using pred_div5_pos [of k] complete by (simp add: q_def n_def)
    have sd: "Suc k div 5 = Suc q" and sm: "Suc k mod 5 = 0"
      using complete by (simp_all add: suc_div5_full suc_mod5 q_def)
    have full: "5 * q + 4 = k"
      using full_bucket [OF complete] by (simp add: q_def)
    have len4: "length (map candle_of (drop (5 * q) bars)) = 4"
      using len_bucket complete by simp
    have lt: "5 * q < length bars"
      using full by (simp add: k_def)
    have hd_bucket: "hd (map candle_of (drop (5 * q) bars)) = candle_of (bars ! (5 * q))"
      using lt by (simp add: hd_map hd_drop_conv_nth)
    have "(bars @ [b]) ! (5 * q + 4) = b"
      by (simp only: full k_def nth_append_length)
    moreover have "(bars @ [b]) ! (5 * q) = bars ! (5 * q)"
      using lt by (simp add: nth_append)
    ultimately have pend: "htf_bar (bars @ [b]) q =
        \<lparr>open_price = open_price (candle_of (bars ! (5 * q))), close_price = close_price (candle_of b)\<rparr>"
      by (simp add: htf_bar_def candle_of_def)
    have "5 * Suc q = Suc (length bars)"
      using full by (simp add: k_def)
    then have empty: "drop (5 * Suc q) (bars @ [b]) = []"
      by (simp only: drop_eq_Nil length_append_singleton order_refl)
    have old': "gate_closed bars =
      \<lparr>g_ltf = map candle_of bars, g_visible = map (htf_bar bars) [0..<q],
       g_bucket = map candle_of (drop (5 * q) bars), g_pending = None,
       g_available = False, g_ticks = k, g_promoted = q\<rparr>"
      using complete by (simp add: old qn)
    have new': "gate_closed (bars @ [b]) =
      \<lparr>g_ltf = map candle_of bars @ [candle_of b],
       g_visible = map (htf_bar bars) [0..<q],
       g_bucket = [],
       g_pending = Some \<lparr>open_price = open_price (hd (map candle_of (drop (5 * q) bars))),
                          close_price = close_price (candle_of b)\<rparr>,
       g_available = True, g_ticks = Suc k, g_promoted = q\<rparr>"
      by (simp only: new vis sd sm empty pend hd_bucket list.map diff_Suc_1) simp
    show ?thesis
      by (simp only: old' new' tick_complete [OF len4])
  next
    case collect
    have qn: "n = q"
    proof (cases "k = 0")
      case True
      then show ?thesis by (simp add: q_def n_def)
    next
      case False
      with collect show ?thesis
        using pred_div5_pos [of k] by (simp add: q_def n_def)
    qed
    have sd: "Suc k div 5 = q" and sm: "Suc k mod 5 \<noteq> 0"
      using collect by (auto simp add: suc_div5 suc_mod5 q_def)
    have nopend: "\<not> (0 < k \<and> k mod 5 = 0)"
      using collect by auto
    have "k mod 5 < 5"
      by simp
    with collect have "k mod 5 < 4"
      by (cases "k = 0") auto
    then have lt4: "length (map candle_of (drop (5 * q) bars)) < 4"
      using len_bucket by simp
    have old': "gate_closed bars =
      \<lparr>g_ltf = map candle_of bars, g_visible = map (htf_bar bars) [0..<q],
       g_bucket = map candle_of (drop (5 * q) bars), g_pending = None,
       g_available = False, g_ticks = k, g_promoted = q\<rparr>"
      using nopend by (simp add: old qn)
    have new': "gate_closed (bars @ [b]) =
      \<lparr>g_ltf = map candle_of bars @ [candle_of b],
       g_visible = map (htf_bar bars) [0..<q],
       g_bucket = map candle_of (drop (5 * q) bars) @ [candle_of b],
       g_pending = None,
       g_available = False, g_ticks = Suc k, g_promoted = q\<rparr>"
      using sm by (simp only: new vis sd bucket_snoc) simp
    show ?thesis
      by (simp only: old' new' tick_collect [OF lt4])
  qed
qed

lemma gate_run_closed: "gate_run bars = gate_closed bars"
proof (induction bars rule: rev_induct)
  case Nil
  show ?case by (simp add: gate_run_def gate_closed_def gate_init_def)
next
  case (snoc b bars)
  then show ?case by (simp add: gate_run_snoc gate_tick_closed)
qed

lemma gate_bt_feed: "gate_of (snd (bt_feed bars)) = gate_closed bars"
  by (simp add: gate_of_bt_feed gate_run_closed)

lemma gate_live_ticks: "gate_of (snd (live_ticks smb ticks)) = gate_closed (map fst ticks)"
  by (simp add: gate_of_live_ticks gate_run_closed)

lemma gate_fields:
  "htf_candles s = g_visible (gate_of s)" "htf_pending s = g_pending (gate_of s)"
  "htf_bucket s = g_bucket (gate_of s)" "ltf_candles s = g_ltf (gate_of s)"
  "candle_count s = g_ticks (gate_of s)" "htf_count s = g_promoted (gate_of s)"
  "htf_available_next s = g_available (gate_of s)"
  by (simp_all add: gate_of_def)

lemma htf_bar_take: "5 * n + 4 \<le> t \<Longrightarrow> htf_bar (take (Suc t) bars) n = htf_bar bars n"
  by (simp add: htf_bar_def)

lemma less_div5: "n < t div 5 \<longleftrightarrow> 5 * n + 5 \<le> (t::nat)"
  by presburger

lemma closed_visible:
  "length bars = Suc t \<Longrightarrow> g_visible (gate_closed bars) = map (htf_bar bars) [0..<t div 5]"
  by (simp add: gate_closed_def)

lemma closed_pending:
  "length bars = 5 * n + 5 \<Longrightarrow> g_pending (gate_closed bars) = Some (htf_bar bars n)"
  by (simp add: gate_closed_def)

lemma closed_visible_take:
  assumes "t < length bars"
  shows "g_visible (gate_closed (take (Suc t) bars)) = map (htf_bar bars) [0..<t div 5]"
proof -
  have len: "length (take (Suc t) bars) = Suc t"
    using assms by simp
  have "map (htf_bar (take (Suc t) bars)) [0..<t div 5] = map (htf_bar bars) [0..<t div 5]"
    by (rule map_cong) (auto simp add: less_div5 intro!: htf_bar_take)
  then show ?thesis
    by (simp only: closed_visible [OF len])
qed

lemma closed_pending_take:
  assumes "5 * n + 4 < length bars"
  shows "g_pending (gate_closed (take (Suc (5 * n + 4)) bars)) = Some (htf_bar bars n)"
proof -
  have len: "length (take (Suc (5 * n + 4)) bars) = 5 * n + 5"
    using assms by simp
  have "htf_bar (take (Suc (5 * n + 4)) bars) n = htf_bar bars n"
    by (rule htf_bar_take) simp
  then show ?thesis
    by (simp only: closed_pending [OF len])
qed

lemma closed_synthesized:
  "g_visible (gate_closed bars) @ (case g_pending (gate_closed bars) of None \<Rightarrow> [] | Some h \<Rightarrow> [h]) =
   map (htf_bar bars) [0..<length bars div 5]"
proof (cases "0 < length bars \<and> length bars mod 5 = 0")
  case True
  then have "Suc ((length bars - 1) div 5) = length bars div 5"
    using pred_div5_zero [of "length bars"] by simp
  then obtain j where j: "(length bars - Suc 0) div 5 = j" "length bars div 5 = Suc j"
    by simp
  show ?thesis
    using True by (simp add: gate_closed_def j)
next
  case False
  then have "(length bars - 1) div 5 = length bars div 5"
    using pred_div5_pos [of "length bars"] by (cases "length bars = 0") auto
  then show ?thesis
    using False by (auto simp add: gate_closed_def)
qed

lemma synthesized_gate:
  "htf_synthesized s = g_visible (gate_of s) @ (case g_pending (gate_of s) of None \<Rightarrow> [] | Some h \<Rightarrow> [h])"
  by (simp add: htf_synthesized_def gate_of_def)

lemma closed_facts:
  "g_bucket (gate_closed bars) = map candle_of (drop (5 * (length bars div 5)) bars)"
  "(g_pending (gate_closed bars) \<noteq> None) = (0 < length bars \<and> length bars mod 5 = 0)"
  "length (g_bucket (gate_closed bars)) = length bars mod 5"
  by (simp_all add: gate_closed_def minus_mult_div_eq_mod)

text \<open>
  C2.  Ticks are numbered from 0.  In both drivers the n-th HTF bar is not in
  the visible HTF history on any tick \<open>t \<le> 5n+4\<close>, it is the pending
  bar after tick \<open>5n+4\<close> (the tick on which it completes), and it is the
  n-th entry of the visible history on every tick \<open>t \<ge> 5n+5\<close>.  For the
  live trader this holds whatever the outcomes of the order calls.
\<close>

theorem htf_visible_one_tick_late:
  assumes "t < length bars" and "t < length ticks"
  shows "(t \<le> 5 * n + 4 \<longrightarrow>
            length (htf_candles (bt_at bars t)) \<le> n \<and>
            length (htf_candles (live_at smb ticks t)) \<le> n) \<and>
         (t = 5 * n + 4 \<longrightarrow>
            htf_pending (bt_at bars t) = Some (htf_bar bars n) \<and>
            htf_pending (live_at smb ticks t) = Some (htf_bar (map fst ticks) n)) \<and>
         (5 * n + 5 \<le> t \<longrightarrow>
            n < length (htf_candles (bt_at bars t)) \<and>
            htf_candles (bt_at bars t) ! n = htf_bar bars n \<and>
            n < length (htf_candles (live_at smb ticks t)) \<and>
            htf_candles (live_at smb ticks t) ! n = htf_bar (map fst ticks) n)"
proof -
  have b: "htf_candles (bt_at bars t) = map (htf_bar bars) [0..<t div 5]"
    using closed_visible_take [OF assms(1)]
    by (simp add: bt_at_def gate_fields gate_bt_feed)
  have "t < length (map fst ticks)"
    using assms(2) by simp
  then have l: "htf_candles (live_at smb ticks t) = map (htf_bar (map fst ticks)) [0..<t div 5]"
    using closed_visible_take [of t "map fst ticks"]
    by (simp add: live_at_def gate_fields gate_live_ticks take_map)
  have early: "t \<le> 5 * n + 4 \<Longrightarrow> t div 5 \<le> n"
    using less_div5 [of n t] by simp
  have late: "5 * n + 5 \<le> t \<Longrightarrow> n < t div 5"
    by (simp add: less_div5)
  have pb: "t = 5 * n + 4 \<Longrightarrow> htf_pending (bt_at bars t) = Some (htf_bar bars n)"
    using closed_pending_take [of n bars] assms(1)
    by (simp add: bt_at_def gate_fields gate_bt_feed)
  have pl: "t = 5 * n + 4 \<Longrightarrow> htf_pending (live_at smb ticks t) = Some (htf_bar (map fst ticks) n)"
    using closed_pending_take [of n "map fst ticks"] assms(2)
    by (simp add: live_at_def gate_fields gate_live_ticks take_map)
  show ?thesis
    using early late pb pl by (simp add: b l)
qed

theorem htf_visible_one_tick_late_witness:
  "length (htf_candles (bt_at sample_bars 4)) \<le> 0 \<and>
   length (htf_candles (live_at ''ETHUSDT'' sample_ticks 4)) \<le> 0 \<and>
   htf_pending (bt_at sample_bars 4) = Some \<lparr>open_price = 1, close_price = 5\<rparr> \<and>
   htf_pending (live_at ''ETHUSDT'' sample_ticks 4) = Some \<lparr>open_price = 1, close_price = 5\<rparr> \<and>
   htf_candles (bt_at sample_bars 5) ! 0 = \<lparr>open_price = 1, close_price = 5\<rparr> \<and>
   htf_candles (live_at ''ETHUSDT'' sample_ticks 5) ! 0 = \<lparr>open_price = 1, close_price = 5\<rparr>"
proof -
  have len: "4 < length sample_bars" "4 < length sample_ticks"
    "5 < length sample_bars" "5 < length sample_ticks"
    by (simp_all add: sample_bars_def sample_ticks_def)
  have bar0: "htf_bar sample_bars 0 = \<lparr>open_price = 1, close_price = 5\<rparr>"
    "htf_bar (map fst sample_ticks) 0 = \<lparr>open_price = 1, close_price = 5\<rparr>"
    by (simp_all add: htf_bar_def sample_bars_def sample_ticks_def)
  show ?thesis
    using htf_visible_one_tick_late [OF len(1) len(2), of 0 "''ETHUSDT''"]
      htf_visible_one_tick_late [OF len(3) len(4), of 0 "''ETHUSDT''"] bar0
    by simp
qed

text \<open>
  C3.  After any sequence of pushes, in both drivers: the number of HTF bars
  synthesized is the number of pushes divided by 5; the n-th of them has the
  open of LTF bar 5n and the close of LTF bar 5n+4; a bar is pending after a
  push exactly when that push was a fifth one; and the bucket holds the bars
  pushed since the last fifth push, so it is empty right after each fifth push.
\<close>

theorem bucket_correctness:
  "length (htf_synthesized (snd (bt_feed bars))) = length bars div 5 \<and>
   (n < length bars div 5 \<longrightarrow>
      open_price (htf_synthesized (snd (bt_feed bars)) ! n) = bar_open (bars ! (5 * n)) \<and>
      close_price (htf_synthesized (snd (bt_feed bars)) ! n) = bar_close (bars ! (5 * n + 4))) \<and>
   (htf_pending (snd (bt_feed bars)) \<noteq> None) = (0 < length bars \<and> length bars mod 5 = 0) \<and>
   htf_bucket (snd (bt_feed bars)) = map candle_of (drop (5 * (length bars div 5)) bars) \<and>
   length (htf_bucket (snd (bt_feed bars))) = length bars mod 5 \<and>
   length (htf_synthesized (snd (live_ticks smb ticks))) = length ticks div 5 \<and>
   (n < length ticks div 5 \<longrightarrow>
      open_price (htf_synthesized (snd (live_ticks smb ticks)) ! n) = bar_open (fst (ticks ! (5 * n))) \<and>
      close_price (htf_synthesized (snd (live_ticks smb ticks)) ! n) = bar_close (fst (ticks ! (5 * n + 4)))) \<and>
   (htf_pending (snd (live_ticks smb ticks)) \<noteq> None) = (0 < length ticks \<and> length ticks mod 5 = 0) \<and>
   htf_bucket (snd (live_ticks smb ticks)) = map candle_of (drop (5 * (length ticks div 5)) (map fst ticks)) \<and>
   length (htf_bucket (snd (live_ticks smb ticks))) = length ticks mod 5"
proof -
  have sb: "htf_synthesized (snd (bt_feed bars)) = map (htf_bar bars) [0..<length bars div 5]"
    by (simp only: synthesized_gate gate_bt_feed closed_synthesized)
  have sl: "htf_synthesized (snd (live_ticks smb ticks)) =
            map (htf_bar (map fst ticks)) [0..<length ticks div 5]"
    using closed_synthesized [of "map fst ticks"]
    by (simp only: synthesized_gate gate_live_ticks length_map)
  have nth: "n < length ticks div 5 \<Longrightarrow>
             map fst ticks ! (5 * n) = fst (ticks ! (5 * n)) \<and>
             map fst ticks ! (5 * n + 4) = fst (ticks ! (5 * n + 4))"
    by (simp add: less_div5)
  have fb: "(htf_pending (snd (bt_feed bars)) \<noteq> None) = (0 < length bars \<and> length bars mod 5 = 0)"
    "htf_bucket (snd (bt_feed bars)) = map candle_of (drop (5 * (length bars div 5)) bars)"
    "length (htf_bucket (snd (bt_feed bars))) = length bars mod 5"
    using closed_facts [of bars] by (simp_all only: gate_fields gate_bt_feed)
  have fl: "(htf_pending (snd (live_ticks smb ticks)) \<noteq> None) = (0 < length ticks \<and> length ticks mod 5 = 0)"
    "htf_bucket (snd (live_ticks smb ticks)) = map candle_of (drop (5 * (length ticks div 5)) (map fst ticks))"
    "length (htf_bucket (snd (live_ticks smb ticks))) = length ticks mod 5"
    using closed_facts [of "map fst ticks"] by (simp_all only: gate_fields gate_live_ticks length_map)
  show ?thesis
    using nth by (simp only: sb sl fb fl) (simp add: htf_bar_def minus_mult_div_eq_mod)
qed

theorem bucket_correctness_witness:
  "length (htf_synthesized (snd (bt_feed sample_bars))) = 1 \<and>
   open_price (htf_synthesized (snd (bt_feed sample_bars)) ! 0) = 1 \<and>
   close_price (htf_synthesized (snd (bt_feed sample_bars)) ! 0) = 5 \<and>
   length (htf_bucket (snd (bt_feed sample_bars))) = 2 \<and>
   open_price (htf_synthesized (snd (live_ticks ''ETHUSDT'' sample_ticks)) ! 0) = 1 \<and>
   close_price (htf_synthesized (snd (live_ticks ''ETHUSDT'' sample_ticks)) ! 0) = 5"
proof -
  have len: "length sample_bars = 7" "length sample_ticks = 7"
    by (simp_all add: sample_bars_def sample_ticks_def)
  have vals: "bar_open (sample_bars ! 0) = 1" "bar_close (sample_bars ! 4) = 5"
    "bar_open (fst (sample_ticks ! 0)) = 1" "bar_close (fst (sample_ticks ! 4)) = 5"
    by (simp_all add: sample_bars_def sample_ticks_def)
  show ?thesis
    using bucket_correctness [of sample_bars 0 "''ETHUSDT''" sample_ticks] vals
    by (simp add: len)
qed

section \<open>Parity of the live trader and the replay\<close>











subsection \<open>The polling loop feeds the engine its candle log\<close>

lemma live_promote_gates: "live_promote (set_gates g a l) = set_gates g a (live_promote l)"
  by (simp add: live_promote_def set_gates_def split: option.splits)

lemma live_aggregate_gates: "live_aggregate c (set_gates g a l) = set_gates g a (live_aggregate c l)"
  by (simp add: live_aggregate_def set_gates_def Let_def)






















end
